theory Spec2Isabelle
  imports Main "HOL-Library.Sublist"
begin

section \<open>Placeholder rendering of TXTDirect (placeholders.go)\<close>

text \<open>
  The theory embeds \<^verbatim>\<open>parsePlaceholders\<close> of \<^verbatim>\<open>placeholders.go\<close>. Go strings are
  byte sequences and are modelled as \<^typ>\<open>string\<close>, one \<^typ>\<open>char\<close> per byte. The functions of
  Go's standard library that the code calls are modelled first, then the request, then
  the function itself, block by block in the order of the source.
\<close>

subsection \<open>Character classes\<close>

definition isDigit :: "char \<Rightarrow> bool" where
  "isDigit c = (c \<in> set ''0123456789'')"

definition isUpper :: "char \<Rightarrow> bool" where
  "isUpper c = (c \<in> set ''ABCDEFGHIJKLMNOPQRSTUVWXYZ'')"

definition isLower :: "char \<Rightarrow> bool" where
  "isLower c = (c \<in> set ''abcdefghijklmnopqrstuvwxyz'')"

definition isLetter :: "char \<Rightarrow> bool" where
  "isLetter c = (isUpper c \<or> isLower c)"

text \<open>The class \<^verbatim>\<open>\w\<close> of Go's regexp package: ASCII letters, digits and the underscore.\<close>

definition isWord :: "char \<Rightarrow> bool" where
  "isWord c = (isDigit c \<or> isLetter c \<or> c = CHR ''_'')"

definition isSigil :: "char \<Rightarrow> bool" where
  "isSigil c = (c \<in> set ''~>?'')"

definition digitVal :: "char \<Rightarrow> int" where
  "digitVal c = of_char c - 48"

definition digitChar :: "nat \<Rightarrow> char" where
  "digitChar d = ''0123456789'' ! d"

definition lowerASCII :: "char \<Rightarrow> char" where
  "lowerASCII c =
     (case map_of (zip ''ABCDEFGHIJKLMNOPQRSTUVWXYZ'' ''abcdefghijklmnopqrstuvwxyz'') c of
        Some l \<Rightarrow> l
      | None \<Rightarrow> c)"

subsection \<open>Package strings\<close>

text \<open>\<^verbatim>\<open>strings.HasPrefix(s, p)\<close> and \<^verbatim>\<open>strings.Contains(s, sub)\<close>.\<close>

definition HasPrefix :: "string \<Rightarrow> string \<Rightarrow> bool" where
  "HasPrefix s p = prefix p s"

definition Contains :: "string \<Rightarrow> string \<Rightarrow> bool" where
  "Contains s sub = sublist sub s"

text \<open>
  \<^verbatim>\<open>strings.Replace(s, old, new, -1)\<close>: every non-overlapping occurrence of \<open>old\<close>, found
  from left to right, becomes \<open>new\<close>. Every call of the source passes a token \<^verbatim>\<open>{...}\<close> as
  \<open>old\<close>; for the empty \<open>old\<close>, which no call passes, Go inserts \<open>new\<close> around every
  rune, and the model returns \<open>s\<close>.
\<close>

function Replace :: "string \<Rightarrow> string \<Rightarrow> string \<Rightarrow> string" where
  "Replace [] old new = []"
| "Replace (c # cs) old new =
     (if old \<noteq> [] \<and> prefix old (c # cs)
      then new @ Replace (drop (length old) (c # cs)) old new
      else c # Replace cs old new)"
  by pat_completeness auto
termination
  by (relation "measure (\<lambda>(s, old, new). length s)") (auto simp: Suc_le_eq)

text \<open>\<^verbatim>\<open>strings.Split(s, sep)\<close> for a separator of one byte (the source uses ":" and ".").\<close>

fun Split :: "string \<Rightarrow> char \<Rightarrow> string list" where
  "Split [] sep = [[]]"
| "Split (c # cs) sep =
     (if c = sep then [] # Split cs sep
      else (case Split cs sep of
              [] \<Rightarrow> [[c]]
            | w # ws \<Rightarrow> (c # w) # ws))"

text \<open>\<^verbatim>\<open>strings.Join(values, sep)\<close>.\<close>

fun Join :: "string list \<Rightarrow> string \<Rightarrow> string" where
  "Join [] sep = []"
| "Join [v] sep = v"
| "Join (v # w # vs) sep = v @ sep @ Join (w # vs) sep"

text \<open>
  \<^verbatim>\<open>strings.EqualFold(s, t)\<close>, equality under Unicode simple case folding, for a second
  argument of ASCII word characters (the source passes the body of a header token, which
  the token grammar restricts to \<^verbatim>\<open>\w+\<close>). Two ASCII bytes are equal up to the case of
  letters. Of the ASCII characters only \<open>k\<close> and \<open>s\<close> fold to a rune outside ASCII: the
  Kelvin sign U+212A (bytes E2 84 AA) and the long s U+017F (bytes C5 BF).
\<close>

definition kelvinSign :: string where
  "kelvinSign = [CHR 0xE2, CHR 0x84, CHR 0xAA]"

definition longS :: string where
  "longS = [CHR 0xC5, CHR 0xBF]"

fun EqualFold :: "string \<Rightarrow> string \<Rightarrow> bool" where
  "EqualFold s [] = (s = [])"
| "EqualFold s (t # ts) =
     (if lowerASCII t = CHR ''k'' \<and> prefix kelvinSign s then EqualFold (drop 3 s) ts
      else if lowerASCII t = CHR ''s'' \<and> prefix longS s then EqualFold (drop 2 s) ts
      else (case s of
              [] \<Rightarrow> False
            | c # cs \<Rightarrow> lowerASCII c = lowerASCII t \<and> EqualFold cs ts))"

text \<open>The slice expression \<^verbatim>\<open>s[i:j]\<close> for \<open>i \<le> j \<le> len(s)\<close>, which holds at every use.\<close>

definition slice :: "string \<Rightarrow> nat \<Rightarrow> nat \<Rightarrow> string" where
  "slice s i j = take (j - i) (drop i s)"

subsection \<open>Package strconv and fmt\<close>

datatype numErr = ErrSyntax | ErrRange

datatype error =
    NumError string numErr
  | LabelZero
  | LabelTooLarge nat
  | RegexIndexError

text \<open>
  \<^verbatim>\<open>strconv.ParseUint(s, 10, 64)\<close> reads the digits from left to right and stops at the first
  byte that is no digit (syntax error) or at the first overflow of 64 bits (range error).
\<close>

definition maxUint64 :: int where
  "maxUint64 = 18446744073709551615"

fun parseDigits :: "int \<Rightarrow> string \<Rightarrow> numErr + int" where
  "parseDigits n [] = Inr n"
| "parseDigits n (c # cs) =
     (if \<not> isDigit c then Inl ErrSyntax
      else if n \<ge> maxUint64 div 10 + 1 then Inl ErrRange
      else if n * 10 + digitVal c > maxUint64 then Inl ErrRange
      else parseDigits (n * 10 + digitVal c) cs)"

text \<open>
  \<^verbatim>\<open>strconv.Atoi(s)\<close> for the 64-bit \<^verbatim>\<open>int\<close>: an optional sign, then digits; the value must
  fit into the signed 64 bits. The error is a \<^verbatim>\<open>*NumError\<close> naming the input.
\<close>

definition maxInt :: int where
  "maxInt = 9223372036854775807"

definition Atoi :: "string \<Rightarrow> error + int" where
  "Atoi s =
     (let neg = (s \<noteq> [] \<and> hd s = CHR ''-'');
          ds = (if s \<noteq> [] \<and> (hd s = CHR ''-'' \<or> hd s = CHR ''+'') then tl s else s)
      in if ds = [] then Inl (NumError s ErrSyntax)
         else (case parseDigits 0 ds of
                 Inl e \<Rightarrow> Inl (NumError s e)
               | Inr un \<Rightarrow>
                   if \<not> neg \<and> un > maxInt then Inl (NumError s ErrRange)
                   else if neg \<and> un > maxInt + 1 then Inl (NumError s ErrRange)
                   else Inr (if neg then - un else un)))"

text \<open>The decimal digits that \<^verbatim>\<open>fmt.Sprintf("%d", n)\<close> prints for \<open>n \<ge> 0\<close>.\<close>

function Itoa :: "nat \<Rightarrow> string" where
  "Itoa n = (if n < 10 then [digitChar n] else Itoa (n div 10) @ [digitChar (n mod 10)])"
  by pat_completeness auto
termination
  by (relation "measure id") auto

declare Itoa.simps [simp del]

subsection \<open>Packages path and net/url\<close>

text \<open>\<^verbatim>\<open>path.Split(p)\<close> cuts after the last slash: directory and file.\<close>

definition path_Split :: "string \<Rightarrow> string \<times> string" where
  "path_Split p =
     (let file = rev (takeWhile (\<lambda>c. c \<noteq> CHR ''/'') (rev p))
      in (take (length p - length file) p, file))"

text \<open>
  \<^verbatim>\<open>url.QueryEscape(s)\<close>: letters, digits and \<^verbatim>\<open>-_.~\<close> stay, a space becomes \<^verbatim>\<open>+\<close>, every
  other byte becomes \<^verbatim>\<open>%XX\<close> in upper-case hexadecimal.
\<close>

definition hexDigit :: "nat \<Rightarrow> char" where
  "hexDigit d = ''0123456789ABCDEF'' ! d"

definition escapeByte :: "char \<Rightarrow> string" where
  "escapeByte c =
     (if isDigit c \<or> isLetter c \<or> c \<in> set ''-_.~'' then [c]
      else if c = CHR '' '' then ''+''
      else [CHR ''%'', hexDigit (of_char c div 16), hexDigit (of_char c mod 16)])"

definition QueryEscape :: "string \<Rightarrow> string" where
  "QueryEscape s = concat (map escapeByte s)"

subsection \<open>The request\<close>

text \<open>
  The value stored under the context key \<^verbatim>\<open>"regexMatches"\<close>: nothing (\<^verbatim>\<open>nil\<close>), a
  \<^verbatim>\<open>[]string\<close> of positional captures, or a \<^verbatim>\<open>map[string]string\<close> of named captures.
  A Go map has distinct keys and is iterated in an order that the runtime chooses anew
  for every loop; the association list is the map in the order of one iteration.
\<close>

datatype ctxValue =
    CtxNil
  | CtxSlice "string list"
  | CtxMap "(string \<times> string) list"

text \<open>
  What \<^verbatim>\<open>parsePlaceholders\<close> reads from \<^verbatim>\<open>*http.Request\<close>. A field holds what the
  accessor of net/http returns: \<open>URL_RequestURI\<close> is \<^verbatim>\<open>r.URL.RequestURI()\<close>, \<open>URL_Port\<close> is
  \<^verbatim>\<open>r.URL.Port()\<close>, \<open>BasicAuth\<close> is the user name and the flag of \<^verbatim>\<open>r.BasicAuth()\<close>,
  \<open>Cookies\<close> are the parsed cookies (\<^verbatim>\<open>r.Cookie(name)\<close> returns the first of that name),
  \<open>URL_Query\<close> is \<^verbatim>\<open>r.URL.Query()\<close>, and \<open>Header\<close> is the map \<^verbatim>\<open>r.Header\<close> in the order of
  one iteration.
\<close>

record request =
  Method :: string
  Host :: string
  Header :: "(string \<times> string list) list"
  Cookies :: "(string \<times> string) list"
  BasicAuth :: "string \<times> bool"
  URL_Path :: string
  URL_RawQuery :: string
  URL_RequestURI :: string
  URL_Port :: string
  URL_Query :: "(string \<times> string list) list"
  regexMatches :: ctxValue

text \<open>\<^verbatim>\<open>r.Cookie(name)\<close>: the first cookie of that name, or \<^verbatim>\<open>ErrNoCookie\<close> (\<open>None\<close>).\<close>

definition Cookie :: "request \<Rightarrow> string \<Rightarrow> string option" where
  "Cookie r name = map_of (Cookies r) name"

text \<open>\<^verbatim>\<open>r.URL.Query().Get(name)\<close>: the first value of the key, or the empty string.\<close>

definition Query_Get :: "request \<Rightarrow> string \<Rightarrow> string" where
  "Query_Get r name =
     (case map_of (URL_Query r) name of
        None \<Rightarrow> []
      | Some [] \<Rightarrow> []
      | Some (v # vs) \<Rightarrow> v)"

subsection \<open>The token scanner\<close>

text \<open>
  \<^verbatim>\<open>PlaceholderRegex = {[~>?]?\w+}\<close>. \<open>matchAt s\<close> is the match that starts at the first
  byte of \<open>s\<close>, if there is one. No sigil is a word character and the closing brace is
  none either, so the regular expression has at most one match at a position.
\<close>

definition matchAt :: "string \<Rightarrow> string option" where
  "matchAt s =
     (case s of
        [] \<Rightarrow> None
      | c # rest \<Rightarrow>
          if c \<noteq> CHR ''{'' then None
          else (let sig = (if rest \<noteq> [] \<and> isSigil (hd rest) then [hd rest] else []);
                    rest' = drop (length sig) rest;
                    w = takeWhile isWord rest'
                in if w \<noteq> [] \<and> prefix ''}'' (drop (length w) rest')
                   then Some (CHR ''{'' # sig @ w @ ''}'')
                   else None))"

text \<open>
  \<^verbatim>\<open>PlaceholderRegex.FindAllStringSubmatch(input, -1)\<close>, element 0 of every match: the
  matches from left to right, the search going on behind each match.
\<close>

function FindAll :: "string \<Rightarrow> string list" where
  "FindAll [] = []"
| "FindAll (c # cs) =
     (case matchAt (c # cs) of
        None \<Rightarrow> FindAll cs
      | Some m \<Rightarrow> m # FindAll (drop (length m) (c # cs)))"
  by pat_completeness auto
termination
  by (relation "measure length") (auto simp: matchAt_def Let_def split: if_splits)

subsection \<open>One iteration of the loop over the placeholders\<close>

datatype panic = ReflectIndexOfNil | ReflectIndexOfMap | ReflectIndexOutOfRange

datatype outcome = Continue string | Fail error | Panic panic

text \<open>The host without its port, as computed for \<^verbatim>\<open>{hostonly}\<close> and again for the labels.\<close>

definition hostOnly :: "request \<Rightarrow> string" where
  "hostOnly r =
     (if Contains (Host r) '':'' then hd (Split (Host r) CHR '':'') else Host r)"

text \<open>The \<^verbatim>\<open>switch\<close> over the keywords (lines 35 to 74).\<close>

definition keywordSwitch :: "request \<Rightarrow> string \<Rightarrow> string \<Rightarrow> string" where
  "keywordSwitch r p input =
     (if p = ''{uri}'' then Replace input ''{uri}'' (URL_RequestURI r)
      else if p = ''{dir}'' then Replace input ''{dir}'' (fst (path_Split (URL_Path r)))
      else if p = ''{file}'' then Replace input ''{file}'' (snd (path_Split (URL_Path r)))
      else if p = ''{host}'' then Replace input ''{host}'' (Host r)
      else if p = ''{hostonly}'' then Replace input ''{hostonly}'' (hostOnly r)
      else if p = ''{method}'' then Replace input ''{method}'' (Method r)
      else if p = ''{path}'' then Replace input ''{path}'' (URL_Path r)
      else if p = ''{path_escaped}''
        then Replace input ''{path_escaped}'' (QueryEscape (URL_Path r))
      else if p = ''{port}'' then Replace input ''{port}'' (URL_Port r)
      else if p = ''{query}'' then Replace input ''{query}'' (URL_RawQuery r)
      else if p = ''{query_escaped}''
        then Replace input ''{query_escaped}'' (QueryEscape (URL_RawQuery r))
      else if p = ''{uri_escaped}''
        then Replace input ''{uri_escaped}'' (QueryEscape (URL_RequestURI r))
      else if p = ''{user}''
        then (let input' = (if \<not> snd (BasicAuth r) then Replace input ''{user}'' [] else input)
              in Replace input' ''{user}'' (fst (BasicAuth r)))
      else input)"

text \<open>The label block (lines 77 to 97).\<close>

definition labelBlock :: "request \<Rightarrow> string \<Rightarrow> string \<Rightarrow> error + string" where
  "labelBlock r p input =
     (if HasPrefix p ''{label'' then
        (case Atoi (slice p 6 (length p - 1)) of
           Inl err \<Rightarrow> Inl err
         | Inr n \<Rightarrow>
             if n < 1 then Inl LabelZero
             else (let labels = Split (hostOnly r) CHR ''.''
                   in if n > int (length labels) then Inl (LabelTooLarge (length labels))
                      else Inr (Replace input p (labels ! nat (n - 1)))))
      else Inr input)"

text \<open>The header block (lines 98 to 106): the loop runs over every key of the map.\<close>

definition headerBlock :: "request \<Rightarrow> string \<Rightarrow> string \<Rightarrow> string" where
  "headerBlock r p input =
     (if p ! 1 = CHR ''>'' then
        foldl (\<lambda>inp (key, values).
                 if EqualFold key (slice p 2 (length p - 1))
                 then Replace inp p (Join values '','')
                 else inp)
          input (Header r)
      else input)"

text \<open>The cookie block (lines 107 to 112).\<close>

definition cookieBlock :: "request \<Rightarrow> string \<Rightarrow> string \<Rightarrow> string" where
  "cookieBlock r p input =
     (if p ! 1 = CHR ''~'' then
        (case Cookie r (slice p 2 (length p - 1)) of
           Some v \<Rightarrow> Replace input p v
         | None \<Rightarrow> input)
      else input)"

text \<open>The query block (lines 113 to 117).\<close>

definition queryBlock :: "request \<Rightarrow> string \<Rightarrow> string \<Rightarrow> string" where
  "queryBlock r p input =
     (if p ! 1 = CHR ''?'' then Replace input p (Query_Get r (slice p 2 (length p - 1)))
      else input)"

text \<open>
  \<^verbatim>\<open>reflect.ValueOf(matches).Index(i).String()\<close> for the \<^verbatim>\<open>int\<close> \<open>i\<close>: it panics on
  \<^verbatim>\<open>nil\<close>, on a map, and on an index outside the slice.
\<close>

definition reflectIndex :: "ctxValue \<Rightarrow> int \<Rightarrow> panic + string" where
  "reflectIndex m i =
     (case m of
        CtxNil \<Rightarrow> Inl ReflectIndexOfNil
      | CtxMap kvs \<Rightarrow> Inl ReflectIndexOfMap
      | CtxSlice xs \<Rightarrow>
          if 0 \<le> i \<and> i < int (length xs) then Inr (xs ! nat i)
          else Inl ReflectIndexOutOfRange)"

text \<open>
  The block of the numbered regex matches (lines 119 to 128). The pattern \<^verbatim>\<open>(\d+)\<close> is
  matched against the one byte \<^verbatim>\<open>placeholder[0][1]\<close>, and the same byte is the argument
  of \<^verbatim>\<open>strconv.Atoi\<close>.
\<close>

definition numberedBlock :: "request \<Rightarrow> string \<Rightarrow> string \<Rightarrow> outcome" where
  "numberedBlock r p input =
     (if isDigit (p ! 1) then
        (case Atoi [p ! 1] of
           Inl err \<Rightarrow> Fail RegexIndexError
         | Inr index \<Rightarrow>
             (case reflectIndex (regexMatches r) (index - 1) of
                Inl pn \<Rightarrow> Panic pn
              | Inr v \<Rightarrow> Continue (Replace input p v)))
      else Continue input)"

text \<open>
  The block of the named regex matches (lines 130 to 142). The pattern
  \<^verbatim>\<open>([a-zA-Z]+[0-9]*)\<close> is not anchored: it matches every body that has a letter. The body
  \<^verbatim>\<open>placeholder[0][1 : len-1]\<close> includes the sigil.
\<close>

definition namedBlock :: "request \<Rightarrow> string \<Rightarrow> string \<Rightarrow> string" where
  "namedBlock r p input =
     (if list_ex isLetter (slice p 1 (length p - 1)) then
        (case regexMatches r of
           CtxMap kvs \<Rightarrow>
             foldl (\<lambda>inp (key, val).
                      if key = slice p 1 (length p - 1) then Replace inp p val else inp)
               input kvs
         | _ \<Rightarrow> input)
      else input)"

text \<open>The body of the loop for the placeholder \<open>p\<close> and the current \<open>input\<close>.\<close>

definition processPlaceholder :: "request \<Rightarrow> string \<Rightarrow> string \<Rightarrow> outcome" where
  "processPlaceholder r p input =
     (case labelBlock r p (keywordSwitch r p input) of
        Inl err \<Rightarrow> Fail err
      | Inr input2 \<Rightarrow>
          (case numberedBlock r p (queryBlock r p (cookieBlock r p (headerBlock r p input2))) of
             Continue input3 \<Rightarrow> Continue (namedBlock r p input3)
           | Fail err \<Rightarrow> Fail err
           | Panic pn \<Rightarrow> Panic pn))"

fun placeholdersLoop :: "request \<Rightarrow> string list \<Rightarrow> string \<Rightarrow> outcome" where
  "placeholdersLoop r [] input = Continue input"
| "placeholdersLoop r (p # ps) input =
     (case processPlaceholder r p input of
        Continue input' \<Rightarrow> placeholdersLoop r ps input'
      | Fail err \<Rightarrow> Fail err
      | Panic pn \<Rightarrow> Panic pn)"

subsection \<open>The loop over the path slice and the whole function\<close>

definition pathToken :: "nat \<Rightarrow> string" where
  "pathToken n = ''{$'' @ Itoa n @ ''}''"

text \<open>Lines 145 to 147; \<open>k\<close> is the index of the first element of the remaining slice.\<close>

fun pathLoop :: "nat \<Rightarrow> string list \<Rightarrow> string \<Rightarrow> string" where
  "pathLoop k [] input = input"
| "pathLoop k (v # vs) input = pathLoop (Suc k) vs (Replace input (pathToken (k + 1)) v)"

text \<open>
  A call returns the pair of a string and an optional error (\<open>None\<close> is \<^verbatim>\<open>nil\<close>), or it
  panics.
\<close>

datatype result = Returns string "error option" | Panics panic

definition parsePlaceholders :: "string \<Rightarrow> request \<Rightarrow> string list \<Rightarrow> result" where
  "parsePlaceholders input r pathSlice =
     (case placeholdersLoop r (FindAll input) input of
        Continue input' \<Rightarrow> Returns (pathLoop 0 pathSlice input') None
      | Fail err \<Rightarrow> Returns [] (Some err)
      | Panic pn \<Rightarrow> Panics pn)"

subsection \<open>Notions used in the statements\<close>

text \<open>The named captures of the request: the entries of the map, if the context holds a map.\<close>

definition namedCaptures :: "request \<Rightarrow> (string \<times> string) list" where
  "namedCaptures r = (case regexMatches r of CtxMap kvs \<Rightarrow> kvs | _ \<Rightarrow> [])"




text \<open>The strings that \<^verbatim>\<open>PlaceholderRegex\<close> matches.\<close>

definition placeholderShape :: "string \<Rightarrow> bool" where
  "placeholderShape p =
     (\<exists>sg w. p = CHR ''{'' # sg @ w @ ''}'' \<and> w \<noteq> [] \<and> list_all isWord w
        \<and> (sg = [] \<or> (\<exists>c. sg = [c] \<and> isSigil c)))"

text \<open>
  Two association lists that are the same Go map, seen in two orders of iteration: the
  keys of each are distinct and the entries are the same.
\<close>

definition sameMap :: "('k \<times> 'v) list \<Rightarrow> ('k \<times> 'v) list \<Rightarrow> bool" where
  "sameMap m m' = (distinct (map fst m) \<and> distinct (map fst m') \<and> set m = set m')"

text \<open>
  A request for the examples: \<^verbatim>\<open>GET /x/y?q=1\<close> sent to the host
  \<^verbatim>\<open>a.b.example.co.uk:8080\<close> with one cookie, without credentials and without captures.
\<close>

definition exampleRequest :: request where
  "exampleRequest =
     \<lparr>Method = ''GET'', Host = ''a.b.example.co.uk:8080'',
      Header = [(''Accept'', [''a'', ''b'']), (''Cookie'', [''session=xyz''])],
      Cookies = [(''session'', ''xyz'')], BasicAuth = ([], False),
      URL_Path = ''/x/y'', URL_RawQuery = ''q=1'', URL_RequestURI = ''/x/y?q=1'',
      URL_Port = [], URL_Query = [(''q'', [''1''])], regexMatches = CtxNil\<rparr>"

text \<open>No path token that the loop over \<open>ps\<close> replaces occurs in \<open>t\<close>.\<close>

definition noPathTokens :: "string \<Rightarrow> string list \<Rightarrow> bool" where
  "noPathTokens t ps = list_all (\<lambda>k. \<not> Contains t (pathToken (Suc k))) [0..<length ps]"


text \<open>
  Two context values that differ at most in the order in which a map is iterated, and two
  requests that differ at most in the order in which the header map and the map of the
  named captures are iterated.
\<close>

fun sameCtx :: "ctxValue \<Rightarrow> ctxValue \<Rightarrow> bool" where
  "sameCtx CtxNil CtxNil = True"
| "sameCtx (CtxSlice xs) (CtxSlice ys) = (xs = ys)"
| "sameCtx (CtxMap m) (CtxMap m') = sameMap m m'"
| "sameCtx _ _ = False"

definition sameRequest :: "request \<Rightarrow> request \<Rightarrow> bool" where
  "sameRequest r r' =
     (sameMap (Header r) (Header r') \<and> sameCtx (regexMatches r) (regexMatches r') \<and>
      r'\<lparr>Header := [], regexMatches := CtxNil\<rparr> = r\<lparr>Header := [], regexMatches := CtxNil\<rparr>)"

text \<open>What the function returns, or how it ends, after the loop over the placeholders.\<close>

definition returnAfter :: "outcome \<Rightarrow> string list \<Rightarrow> result" where
  "returnAfter oc pathSlice =
     (case oc of
        Continue input' \<Rightarrow> Returns (pathLoop 0 pathSlice input') None
      | Fail err \<Rightarrow> Returns [] (Some err)
      | Panic pn \<Rightarrow> Panics pn)"


text \<open>
  Go settles the order of a map iteration at every \<^verbatim>\<open>range\<close> statement anew, so that the
  rounds of the loop over the placeholders may each meet the header map and the map of the
  named captures in another order. \<open>placeholdersLoopSeen view i\<close> is that loop from round
  \<open>i\<close> on, where round \<open>j\<close> reads the request as \<open>view j\<close>; \<open>parsePlaceholdersSeen\<close> is the
  function with this loop.
\<close>

fun placeholdersLoopSeen :: "(nat \<Rightarrow> request) \<Rightarrow> nat \<Rightarrow> string list \<Rightarrow> string \<Rightarrow> outcome" where
  "placeholdersLoopSeen view i [] input = Continue input"
| "placeholdersLoopSeen view i (p # ps) input =
     (case processPlaceholder (view i) p input of
        Continue input' \<Rightarrow> placeholdersLoopSeen view (Suc i) ps input'
      | Fail err \<Rightarrow> Fail err
      | Panic pn \<Rightarrow> Panic pn)"

definition parsePlaceholdersSeen :: "(nat \<Rightarrow> request) \<Rightarrow> string \<Rightarrow> string list \<Rightarrow> result" where
  "parsePlaceholdersSeen view input pathSlice =
     (case placeholdersLoopSeen view 0 (FindAll input) input of
        Continue input' \<Rightarrow> Returns (pathLoop 0 pathSlice input') None
      | Fail err \<Rightarrow> Returns [] (Some err)
      | Panic pn \<Rightarrow> Panics pn)"

section \<open>Lemmas\<close>

subsection \<open>Replacements and tokens in braces\<close>

text \<open>Tokens in braces cannot overlap: a replacement of one leaves the occurrences of every other one where they are.\<close>

lemma Replace_Nil_old [simp]: "Replace s [] new = s"
  by (induction s) auto

lemma Replace_absent: "\<not> sublist old s \<Longrightarrow> Replace s old new = s"
proof (induction s old new rule: Replace.induct)
  case (1 old new)
  then show ?case by simp
next
  case (2 c cs old new)
  from "2.prems" have np: "\<not> prefix old (c # cs)" and ns: "\<not> sublist old cs"
    by (auto simp: sublist_Cons_right)
  with "2.IH"(2) show ?case by simp
qed







subsection \<open>The scanner\<close>






lemma matchAt_Some:
  assumes "matchAt s = Some m"
  shows "placeholderShape m \<and> prefix m s"
proof -
  from assms obtain rest where s: "s = CHR ''{'' # rest"
    by (auto simp: matchAt_def split: list.splits if_splits)
  define sg where "sg = (if rest \<noteq> [] \<and> isSigil (hd rest) then [hd rest] else [])"
  define rest' where "rest' = drop (length sg) rest"
  define w where "w = takeWhile isWord rest'"
  from assms s have w: "w \<noteq> []" and cl: "prefix ''}'' (drop (length w) rest')"
    and m: "m = CHR ''{'' # sg @ w @ ''}''"
    by (auto simp: matchAt_def Let_def sg_def rest'_def w_def split: if_splits)
  have r: "rest = sg @ rest'"
    by (cases rest) (auto simp: sg_def rest'_def)
  have "take (length w) rest' = w"
    unfolding w_def by (rule takeWhile_eq_take [symmetric])
  then have "rest' = w @ drop (length w) rest'"
    using append_take_drop_id [of "length w" rest'] by simp
  with cl obtain z where r': "rest' = w @ ''}'' @ z"
    by (auto simp: prefix_def)
  have "list_all isWord w"
    unfolding w_def list_all_iff by (auto dest: set_takeWhileD)
  moreover have "sg = [] \<or> (\<exists>c. sg = [c] \<and> isSigil c)"
    by (auto simp: sg_def)
  ultimately have "placeholderShape m"
    unfolding placeholderShape_def using m w by blast
  moreover have "prefix m s"
    using s m r r' by (simp add: prefix_def)
  ultimately show ?thesis ..
qed





subsection \<open>Slices and loops over maps\<close>








lemma foldl_filter:
  "foldl (\<lambda>a x. if P x then f a x else a) a xs = foldl f a (filter P xs)"
  by (induction xs arbitrary: a) auto


subsection \<open>The blocks at a single token\<close>








lemma placeholdersLoop_Fail:
  "placeholdersLoop r ps input = Fail err \<Longrightarrow>
     \<exists>pre p rest mid. ps = pre @ p # rest \<and> placeholdersLoop r pre input = Continue mid
        \<and> processPlaceholder r p mid = Fail err"
proof (induction ps arbitrary: input)
  case Nil
  then show ?case by simp
next
  case (Cons q qs)
  show ?case
  proof (cases "processPlaceholder r q input")
    case (Continue input')
    with Cons.prems have "placeholdersLoop r qs input' = Fail err" by simp
    from Cons.IH [OF this] obtain pre p rest mid where
      "qs = pre @ p # rest" "placeholdersLoop r pre input' = Continue mid"
      "processPlaceholder r p mid = Fail err" by blast
    with Continue have "q # qs = (q # pre) @ p # rest
        \<and> placeholdersLoop r (q # pre) input = Continue mid
        \<and> processPlaceholder r p mid = Fail err" by simp
    then show ?thesis by blast
  next
    case (Fail e)
    with Cons.prems have "e = err" by simp
    with Fail have "q # qs = [] @ q # qs \<and> placeholdersLoop r [] input = Continue input
        \<and> processPlaceholder r q input = Fail err" by simp
    then show ?thesis by blast
  next
    case (Panic pn)
    with Cons.prems show ?thesis by simp
  qed
qed

lemma pathLoop_absent:
  "(\<forall>j<length ps. \<not> sublist (pathToken (Suc (k + j))) s) \<Longrightarrow> pathLoop k ps s = s"
proof (induction ps arbitrary: k)
  case Nil
  then show ?case by simp
next
  case (Cons v vs)
  from Cons.prems have "\<not> sublist (pathToken (Suc k)) s" by force
  then have r: "Replace s (pathToken (k + 1)) v = s" by (simp add: Replace_absent)
  have "\<forall>j<length vs. \<not> sublist (pathToken (Suc (Suc k + j))) s"
    using Cons.prems by force
  from Cons.IH [OF this] r show ?case by simp
qed


lemma render_single_Fail:
  "FindAll t = [p] \<Longrightarrow> processPlaceholder r p t = Fail e \<Longrightarrow>
     parsePlaceholders t r ps = Returns [] (Some e)"
  by (simp add: parsePlaceholders_def)










subsection \<open>Numbers and labels\<close>













subsection \<open>Path tokens\<close>









subsection \<open>The first loop keeps the other tokens\<close>













subsection \<open>Orders of iteration\<close>

lemma filter_same_set:
  assumes "distinct xs" "distinct ys" "set xs = set ys" "length (filter P xs) \<le> 1"
  shows "filter P xs = filter P ys"
proof -
  have d: "distinct (filter P xs)" "distinct (filter P ys)"
    using assms(1,2) by simp_all
  have s: "set (filter P xs) = set (filter P ys)"
    using assms(3) by simp
  have "length (filter P ys) = card (set (filter P ys))"
    by (rule distinct_card [OF d(2), symmetric])
  also have "\<dots> = card (set (filter P xs))"
    using s by (simp only:)
  also have "\<dots> = length (filter P xs)"
    by (rule distinct_card [OF d(1)])
  finally have l: "length (filter P ys) = length (filter P xs)" .
  show ?thesis
  proof (cases "filter P xs")
    case Nil
    with l show ?thesis by simp
  next
    case (Cons a as)
    with assms(4) have as: "as = []" by simp
    with Cons l obtain b where b: "filter P ys = [b]"
      by (cases "filter P ys") auto
    with Cons as s show ?thesis by simp
  qed
qed

lemma sameMap_filter:
  assumes "sameMap m m'" "length (filter P m) \<le> 1"
  shows "filter P m = filter P m'"
  using assms filter_same_set [of m m' P]
  by (auto simp: sameMap_def distinct_map)

lemma key_filter_short:
  "distinct (map fst m) \<Longrightarrow> length (filter (\<lambda>(k, v). k = b) m) \<le> 1"
proof (induction m)
  case Nil
  then show ?case by simp
next
  case (Cons kv m)
  obtain k v where kv: "kv = (k, v)" by (cases kv)
  show ?case
  proof (cases "k = b")
    case True
    with Cons.prems kv have "b \<notin> fst ` set m" by auto
    then have "filter (\<lambda>(k, v). k = b) m = []"
      by (force simp: filter_empty_conv)
    with kv True show ?thesis by simp
  next
    case False
    with Cons kv show ?thesis by simp
  qed
qed

lemma headerBlock_as_filter:
  "headerBlock r p input =
     (if p ! 1 = CHR ''>'' then
        foldl (\<lambda>inp (key, values). Replace inp p (Join values '','')) input
          (filter (\<lambda>(key, values). EqualFold key (slice p 2 (length p - 1))) (Header r))
      else input)"
proof -
  have "foldl (\<lambda>inp (key, values).
                 if EqualFold key (slice p 2 (length p - 1))
                 then Replace inp p (Join values '','') else inp) input (Header r)
      = foldl (\<lambda>inp kv. if (case kv of (key, values) \<Rightarrow> EqualFold key (slice p 2 (length p - 1)))
              then (case kv of (key, values) \<Rightarrow> Replace inp p (Join values '','')) else inp)
          input (Header r)"
    by (auto intro!: arg_cong [where f = "\<lambda>f. foldl f input (Header r)"] simp: fun_eq_iff)
  also have "\<dots> = foldl (\<lambda>inp kv. case kv of (key, values) \<Rightarrow> Replace inp p (Join values '',''))
       input (filter (\<lambda>(key, values). EqualFold key (slice p 2 (length p - 1))) (Header r))"
    by (rule foldl_filter)
  finally show ?thesis
    by (simp add: headerBlock_def)
qed

lemma namedBlock_as_filter:
  "namedBlock r p input =
     (if list_ex isLetter (slice p 1 (length p - 1)) then
        foldl (\<lambda>inp (key, val). Replace inp p val) input
          (filter (\<lambda>(key, val). key = slice p 1 (length p - 1)) (namedCaptures r))
      else input)"
proof -
  have "foldl (\<lambda>inp (key, val).
                 if key = slice p 1 (length p - 1) then Replace inp p val else inp) input kvs
      = foldl (\<lambda>inp kv. if (case kv of (key, val) \<Rightarrow> key = slice p 1 (length p - 1))
              then (case kv of (key, val) \<Rightarrow> Replace inp p val) else inp)
          input kvs" for kvs
    by (auto intro!: arg_cong [where f = "\<lambda>f. foldl f input kvs"] simp: fun_eq_iff)
  also have "\<dots> kvs = foldl (\<lambda>inp kv. case kv of (key, val) \<Rightarrow> Replace inp p val)
       input (filter (\<lambda>(key, val). key = slice p 1 (length p - 1)) kvs)" for kvs
    by (rule foldl_filter)
  finally show ?thesis
    by (simp add: namedBlock_def namedCaptures_def split: ctxValue.splits)
qed

lemma sameRequest_fields:
  assumes "sameRequest r r'"
  shows "Method r' = Method r" "Host r' = Host r" "Cookies r' = Cookies r"
    "BasicAuth r' = BasicAuth r" "URL_Path r' = URL_Path r" "URL_RawQuery r' = URL_RawQuery r"
    "URL_RequestURI r' = URL_RequestURI r" "URL_Port r' = URL_Port r" "URL_Query r' = URL_Query r"
proof -
  from assms have e: "r'\<lparr>Header := [], regexMatches := CtxNil\<rparr> = r\<lparr>Header := [], regexMatches := CtxNil\<rparr>"
    by (simp add: sameRequest_def)
  from arg_cong [OF e, of Method] show "Method r' = Method r" by simp
  from arg_cong [OF e, of Host] show "Host r' = Host r" by simp
  from arg_cong [OF e, of Cookies] show "Cookies r' = Cookies r" by simp
  from arg_cong [OF e, of BasicAuth] show "BasicAuth r' = BasicAuth r" by simp
  from arg_cong [OF e, of URL_Path] show "URL_Path r' = URL_Path r" by simp
  from arg_cong [OF e, of URL_RawQuery] show "URL_RawQuery r' = URL_RawQuery r" by simp
  from arg_cong [OF e, of URL_RequestURI] show "URL_RequestURI r' = URL_RequestURI r" by simp
  from arg_cong [OF e, of URL_Port] show "URL_Port r' = URL_Port r" by simp
  from arg_cong [OF e, of URL_Query] show "URL_Query r' = URL_Query r" by simp
qed

lemma sameRequest_simple_blocks:
  assumes "sameRequest r r'"
  shows "keywordSwitch r' p s = keywordSwitch r p s"
    and "labelBlock r' p s = labelBlock r p s"
    and "cookieBlock r' p s = cookieBlock r p s"
    and "queryBlock r' p s = queryBlock r p s"
proof -
  note f = sameRequest_fields [OF assms]
  have h: "hostOnly r' = hostOnly r" by (simp add: hostOnly_def f)
  show "keywordSwitch r' p s = keywordSwitch r p s"
    unfolding keywordSwitch_def f h ..
  show "labelBlock r' p s = labelBlock r p s"
    unfolding labelBlock_def h ..
  show "cookieBlock r' p s = cookieBlock r p s"
    unfolding cookieBlock_def Cookie_def f ..
  show "queryBlock r' p s = queryBlock r p s"
    unfolding queryBlock_def Query_Get_def f ..
qed

lemma sameRequest_headerBlock:
  assumes "sameRequest r r'"
    and "\<forall>name. length (filter (\<lambda>(key, values). EqualFold key name) (Header r)) \<le> 1"
  shows "headerBlock r' p s = headerBlock r p s"
proof -
  from assms(1) have m: "sameMap (Header r) (Header r')" by (simp add: sameRequest_def)
  have "filter (\<lambda>(key, values). EqualFold key n) (Header r)
      = filter (\<lambda>(key, values). EqualFold key n) (Header r')" for n
    using sameMap_filter [OF m] assms(2) by blast
  then show ?thesis
    by (simp add: headerBlock_as_filter)
qed

lemma sameRequest_numberedBlock:
  assumes "sameRequest r r'"
  shows "numberedBlock r' p s = numberedBlock r p s"
proof -
  from assms have c: "sameCtx (regexMatches r) (regexMatches r')" by (simp add: sameRequest_def)
  have ri: "reflectIndex (regexMatches r') i = reflectIndex (regexMatches r) i" for i
    using c by (cases "regexMatches r"; cases "regexMatches r'") (simp_all add: reflectIndex_def)
  show ?thesis unfolding numberedBlock_def ri ..
qed

lemma sameRequest_namedBlock:
  assumes "sameRequest r r'"
  shows "namedBlock r' p s = namedBlock r p s"
proof -
  from assms have c: "sameCtx (regexMatches r) (regexMatches r')" by (simp add: sameRequest_def)
  have "filter (\<lambda>(key, val). key = b) (namedCaptures r)
      = filter (\<lambda>(key, val). key = b) (namedCaptures r')" for b
  proof (cases "regexMatches r"; cases "regexMatches r'")
    fix m m'
    assume r: "regexMatches r = CtxMap m" and r': "regexMatches r' = CtxMap m'"
    with c have sm: "sameMap m m'" by simp
    then have "length (filter (\<lambda>(key, val). key = b) m) \<le> 1"
      using key_filter_short [of m b] by (simp add: sameMap_def)
    from sameMap_filter [OF sm this] r r' show ?thesis
      by (simp add: namedCaptures_def)
  qed (use c in \<open>simp_all add: namedCaptures_def\<close>)
  then show ?thesis
    by (simp add: namedBlock_as_filter)
qed

lemma sameRequest_processPlaceholder:
  assumes "sameRequest r r'"
    and "\<forall>name. length (filter (\<lambda>(key, values). EqualFold key name) (Header r)) \<le> 1"
  shows "processPlaceholder r' p s = processPlaceholder r p s"
  unfolding processPlaceholder_def sameRequest_simple_blocks [OF assms(1)]
    sameRequest_headerBlock [OF assms] sameRequest_numberedBlock [OF assms(1)]
    sameRequest_namedBlock [OF assms(1)] ..

lemma sameRequest_placeholdersLoop:
  assumes "sameRequest r r'"
    and "\<forall>name. length (filter (\<lambda>(key, values). EqualFold key name) (Header r)) \<le> 1"
  shows "placeholdersLoop r' ps s = placeholdersLoop r ps s"
  by (induction ps arbitrary: s)
    (simp_all add: sameRequest_processPlaceholder [OF assms] split: outcome.splits)

lemma sameRequest_placeholdersLoopSeen:
  assumes "\<forall>i. sameRequest r (view i)"
    and "\<forall>name. length (filter (\<lambda>(key, values). EqualFold key name) (Header r)) \<le> 1"
  shows "placeholdersLoopSeen view i ps s = placeholdersLoop r ps s"
proof (induction ps arbitrary: s i)
  case Nil
  show ?case by simp
next
  case (Cons p ps)
  from assms(1) have "sameRequest r (view i)" by blast
  then have "processPlaceholder (view i) p s = processPlaceholder r p s"
    by (rule sameRequest_processPlaceholder [OF _ assms(2)])
  then show ?case
    by (simp add: Cons.IH split: outcome.splits)
qed

subsection \<open>A token anywhere in the template\<close>

lemma parsePlaceholders_returnAfter:
  "parsePlaceholders input r pathSlice
     = returnAfter (placeholdersLoop r (FindAll input) input) pathSlice"
  by (simp add: parsePlaceholders_def returnAfter_def)

lemma placeholdersLoop_append:
  "placeholdersLoop r (ps @ qs) s =
     (case placeholdersLoop r ps s of
        Continue m \<Rightarrow> placeholdersLoop r qs m
      | Fail err \<Rightarrow> Fail err
      | Panic pn \<Rightarrow> Panic pn)"
  by (induction ps arbitrary: s) (simp_all split: outcome.splits)

lemma render_at_token:
  assumes "FindAll t = pre @ tok # post" and "placeholdersLoop r pre t = Continue mid"
  shows "parsePlaceholders t r pathSlice
           = returnAfter (case processPlaceholder r tok mid of
                            Continue m \<Rightarrow> placeholdersLoop r post m
                          | Fail err \<Rightarrow> Fail err
                          | Panic pn \<Rightarrow> Panic pn) pathSlice"
  using assms by (simp add: parsePlaceholders_returnAfter placeholdersLoop_append)


lemma render_at_token_Fail:
  assumes "FindAll t = pre @ tok # post" and "placeholdersLoop r pre t = Continue mid"
    and "processPlaceholder r tok mid = Fail err"
  shows "parsePlaceholders t r pathSlice = Returns [] (Some err)"
  using render_at_token [OF assms(1,2)] assms(3) by (simp add: returnAfter_def)

lemma matchAt_sublist: "matchAt s = Some m \<Longrightarrow> prefix m s"
  using matchAt_Some by blast

lemma FindAll_sublist: "p \<in> set (FindAll s) \<Longrightarrow> sublist p s"
proof (induction s rule: FindAll.induct)
  case 1
  then show ?case by simp
next
  case (2 c cs)
  show ?case
  proof (cases "matchAt (c # cs)")
    case None
    with 2 have "sublist p cs" by simp
    then show ?thesis by (simp add: sublist_Cons_right)
  next
    case (Some m)
    with "2.prems" consider "p = m" | "p \<in> set (FindAll (drop (length m) (c # cs)))"
      by auto
    then show ?thesis
    proof cases
      case 1
      with matchAt_sublist [OF Some] show ?thesis
        by simp
    next
      case 2
      with "2.IH"(2) [OF Some] have "sublist p (drop (length m) (c # cs))" by simp
      then show ?thesis
        using sublist_drop sublist_order.order.trans by blast
    qed
  qed
qed






subsection \<open>Every occurrence is replaced\<close>









subsection \<open>Case folding\<close>





section \<open>The claims\<close>


text \<open>
  Claim C1. A token of digits such as \<^verbatim>\<open>{1}\<close> is meant to select the capture of that
  number and to give an error value when there is none. The code crashes instead: without
  captures, and with an index outside the captures, \<^verbatim>\<open>reflect.Value.Index\<close> panics. It also
  reads the first digit only: \<^verbatim>\<open>{12}\<close> selects the first of twelve captures.
\<close>

theorem numbered_capture_crashes:
  "parsePlaceholders ''{1}'' exampleRequest [] = Panics ReflectIndexOfNil \<and>
   parsePlaceholders ''{3}'' (exampleRequest\<lparr>regexMatches := CtxSlice [''c1'', ''c2'']\<rparr>) []
     = Panics ReflectIndexOutOfRange \<and>
   parsePlaceholders ''{0}'' (exampleRequest\<lparr>regexMatches := CtxSlice [''c1'', ''c2'']\<rparr>) []
     = Panics ReflectIndexOutOfRange \<and>
   parsePlaceholders ''{12}''
      (exampleRequest\<lparr>regexMatches := CtxSlice [''c1'', ''c2'', ''c3'', ''c4'', ''c5'', ''c6'',
         ''c7'', ''c8'', ''c9'', ''c10'', ''c11'', ''c12'']\<rparr>) []
     = Returns ''c1'' None"
  by code_simp










text \<open>
  Claim C5, as the code has it. The model is a function, so that two calls with the same
  arguments give the same result; what a Go program leaves open is the order in which a map
  is iterated. Take a request whose header map has no two keys that match the same name
  under \<^verbatim>\<open>strings.EqualFold\<close>, as it is for the canonical keys that net/http stores. Then
  the result is the same for every order in which the header map and the map of the named
  captures are iterated, also when every round of the loop over the placeholders meets
  another order: the same string and the same error, or the same panic.
\<close>

theorem render_independent_of_map_order:
  assumes "sameRequest r r'"
    and "\<forall>i. sameRequest r (view i)"
    and "\<forall>i. sameRequest r (view' i)"
    and "\<forall>name. length (filter (\<lambda>(key, values). EqualFold key name) (Header r)) \<le> 1"
  shows "parsePlaceholders input r pathSlice = parsePlaceholders input r' pathSlice \<and>
         parsePlaceholdersSeen view input pathSlice = parsePlaceholders input r pathSlice \<and>
         parsePlaceholdersSeen view input pathSlice = parsePlaceholdersSeen view' input pathSlice"
proof -
  have a: "parsePlaceholders input r' pathSlice = parsePlaceholders input r pathSlice"
    by (simp add: parsePlaceholders_def sameRequest_placeholdersLoop [OF assms(1,4)])
  have b: "parsePlaceholdersSeen v input pathSlice = parsePlaceholders input r pathSlice"
    if "\<forall>i. sameRequest r (v i)" for v
    by (simp add: parsePlaceholders_def parsePlaceholdersSeen_def
        sameRequest_placeholdersLoopSeen [OF that assms(4)])
  from a b [OF assms(2)] b [OF assms(3)] show ?thesis by simp
qed

theorem render_independent_of_map_order_witness:
  "(sameRequest
      (exampleRequest\<lparr>regexMatches := CtxMap [(''x'', ''1''), (''to'', ''blog'')]\<rparr>)
      (exampleRequest\<lparr>Header := [(''Cookie'', [''session=xyz'']), (''Accept'', [''a'', ''b''])],
         regexMatches := CtxMap [(''to'', ''blog''), (''x'', ''1'')]\<rparr>) \<and>
    (\<forall>i::nat. sameRequest
      (exampleRequest\<lparr>regexMatches := CtxMap [(''x'', ''1''), (''to'', ''blog'')]\<rparr>)
      (if i = 1
       then exampleRequest\<lparr>Header := [(''Cookie'', [''session=xyz'']), (''Accept'', [''a'', ''b''])],
              regexMatches := CtxMap [(''to'', ''blog''), (''x'', ''1'')]\<rparr>
       else exampleRequest\<lparr>regexMatches := CtxMap [(''x'', ''1''), (''to'', ''blog'')]\<rparr>)) \<and>
    (\<forall>i::nat. sameRequest
      (exampleRequest\<lparr>regexMatches := CtxMap [(''x'', ''1''), (''to'', ''blog'')]\<rparr>)
      (if i = 0
       then exampleRequest\<lparr>Header := [(''Cookie'', [''session=xyz'']), (''Accept'', [''a'', ''b''])],
              regexMatches := CtxMap [(''x'', ''1''), (''to'', ''blog'')]\<rparr>
       else exampleRequest\<lparr>regexMatches := CtxMap [(''to'', ''blog''), (''x'', ''1'')]\<rparr>)) \<and>
    (\<forall>name. length (filter (\<lambda>(key, values). EqualFold key name)
        (Header (exampleRequest\<lparr>regexMatches := CtxMap [(''x'', ''1''), (''to'', ''blog'')]\<rparr>))) \<le> 1)) \<and>
   parsePlaceholders ''{>accept}/{to}/{x}/{label9}/{1}''
      (exampleRequest\<lparr>regexMatches := CtxMap [(''x'', ''1''), (''to'', ''blog'')]\<rparr>) [''p'']
     = parsePlaceholders ''{>accept}/{to}/{x}/{label9}/{1}''
      (exampleRequest\<lparr>Header := [(''Cookie'', [''session=xyz'']), (''Accept'', [''a'', ''b''])],
         regexMatches := CtxMap [(''to'', ''blog''), (''x'', ''1'')]\<rparr>) [''p''] \<and>
   parsePlaceholdersSeen
      (\<lambda>i. if i = 1
       then exampleRequest\<lparr>Header := [(''Cookie'', [''session=xyz'']), (''Accept'', [''a'', ''b''])],
              regexMatches := CtxMap [(''to'', ''blog''), (''x'', ''1'')]\<rparr>
       else exampleRequest\<lparr>regexMatches := CtxMap [(''x'', ''1''), (''to'', ''blog'')]\<rparr>)
      ''{>accept}/{to}/{x}'' [''p'']
     = parsePlaceholdersSeen
      (\<lambda>i. if i = 0
       then exampleRequest\<lparr>Header := [(''Cookie'', [''session=xyz'']), (''Accept'', [''a'', ''b''])],
              regexMatches := CtxMap [(''x'', ''1''), (''to'', ''blog'')]\<rparr>
       else exampleRequest\<lparr>regexMatches := CtxMap [(''to'', ''blog''), (''x'', ''1'')]\<rparr>)
      ''{>accept}/{to}/{x}'' [''p''] \<and>
   parsePlaceholdersSeen
      (\<lambda>i. if i = 1
       then exampleRequest\<lparr>Header := [(''Cookie'', [''session=xyz'']), (''Accept'', [''a'', ''b''])],
              regexMatches := CtxMap [(''to'', ''blog''), (''x'', ''1'')]\<rparr>
       else exampleRequest\<lparr>regexMatches := CtxMap [(''x'', ''1''), (''to'', ''blog'')]\<rparr>)
      ''{>accept}/{to}/{x}'' [''p'']
     = parsePlaceholders ''{>accept}/{to}/{x}''
      (exampleRequest\<lparr>regexMatches := CtxMap [(''x'', ''1''), (''to'', ''blog'')]\<rparr>) [''p''] \<and>
   parsePlaceholders ''{>accept}/{to}/{x}''
      (exampleRequest\<lparr>regexMatches := CtxMap [(''x'', ''1''), (''to'', ''blog'')]\<rparr>) [''p'']
     = Returns ''a,b/blog/1'' None \<and>
   parsePlaceholders ''{>accept}/{to}/{x}/{label9}/{1}''
      (exampleRequest\<lparr>regexMatches := CtxMap [(''x'', ''1''), (''to'', ''blog'')]\<rparr>) [''p'']
     = Returns [] (Some (LabelTooLarge 5))"
proof -
  let ?r = "exampleRequest\<lparr>regexMatches := CtxMap [(''x'', ''1''), (''to'', ''blog'')]\<rparr>"
  let ?r' = "exampleRequest\<lparr>Header := [(''Cookie'', [''session=xyz'']), (''Accept'', [''a'', ''b''])],
         regexMatches := CtxMap [(''to'', ''blog''), (''x'', ''1'')]\<rparr>"
  let ?ra = "exampleRequest\<lparr>Header := [(''Cookie'', [''session=xyz'']), (''Accept'', [''a'', ''b''])],
         regexMatches := CtxMap [(''x'', ''1''), (''to'', ''blog'')]\<rparr>"
  let ?rb = "exampleRequest\<lparr>regexMatches := CtxMap [(''to'', ''blog''), (''x'', ''1'')]\<rparr>"
  let ?v = "\<lambda>i::nat. if i = 1 then ?r' else ?r"
  let ?v' = "\<lambda>i::nat. if i = 0 then ?ra else ?rb"
  have s: "sameRequest ?r ?r'"
    by (auto simp: sameRequest_def sameMap_def exampleRequest_def)
  have s0: "sameRequest ?r ?r"
    by (auto simp: sameRequest_def sameMap_def exampleRequest_def)
  have sa: "sameRequest ?r ?ra"
    by (auto simp: sameRequest_def sameMap_def exampleRequest_def)
  have sb: "sameRequest ?r ?rb"
    by (auto simp: sameRequest_def sameMap_def exampleRequest_def)
  have sv: "\<forall>i. sameRequest ?r (?v i)"
    using s s0 by simp
  have sv': "\<forall>i. sameRequest ?r (?v' i)"
    using sa sb by simp
  have la: "lowerASCII CHR ''A'' = CHR ''a''" and lc: "lowerASCII CHR ''C'' = CHR ''c''"
    by code_simp+
  have u: "\<forall>name. length (filter (\<lambda>(key, values). EqualFold key name) (Header ?r)) \<le> 1"
  proof
    fix name
    show "length (filter (\<lambda>(key, values). EqualFold key name) (Header ?r)) \<le> 1"
    proof (cases name)
      case Nil
      then show ?thesis by (simp add: exampleRequest_def)
    next
      case (Cons t ts)
      have a: "lowerASCII t = CHR ''a''" if "EqualFold ''Accept'' (t # ts)"
        using that by (simp add: kelvinSign_def longS_def la)
      have c: "lowerASCII t = CHR ''c''" if "EqualFold ''Cookie'' (t # ts)"
        using that by (simp add: kelvinSign_def longS_def lc)
      have "\<not> (EqualFold ''Accept'' name \<and> EqualFold ''Cookie'' name)"
        unfolding Cons using a c by fastforce
      then show ?thesis
        by (auto simp: exampleRequest_def)
    qed
  qed
  have v: "parsePlaceholders ''{>accept}/{to}/{x}'' ?r [''p''] = Returns ''a,b/blog/1'' None"
    by code_simp
  have w: "parsePlaceholders ''{>accept}/{to}/{x}/{label9}/{1}'' ?r [''p'']
     = Returns [] (Some (LabelTooLarge 5))"
    by code_simp
  note t1 = render_independent_of_map_order [OF s sv sv' u,
      of "''{>accept}/{to}/{x}/{label9}/{1}''" "[''p'']"]
  note t2 = render_independent_of_map_order [OF s sv sv' u, of "''{>accept}/{to}/{x}''" "[''p'']"]
  from t1 have c1: "parsePlaceholders ''{>accept}/{to}/{x}/{label9}/{1}'' ?r [''p'']
     = parsePlaceholders ''{>accept}/{to}/{x}/{label9}/{1}'' ?r' [''p'']"
    by (rule conjunct1)
  from t2 have c2: "parsePlaceholdersSeen ?v ''{>accept}/{to}/{x}'' [''p'']
     = parsePlaceholdersSeen ?v' ''{>accept}/{to}/{x}'' [''p'']"
    by (rule conjunct2 [THEN conjunct2])
  from t2 have c3: "parsePlaceholdersSeen ?v ''{>accept}/{to}/{x}'' [''p'']
     = parsePlaceholders ''{>accept}/{to}/{x}'' ?r [''p'']"
    by (rule conjunct2 [THEN conjunct1])
  from s sv sv' u c1 c2 c3 v w show ?thesis
    by (intro conjI)
qed




text \<open>
  Claim C7. When the function returns an error, the string it returns is empty, and the
  error is that of the first placeholder whose processing fails: every placeholder before it
  was processed without error. In the other direction: as soon as the processing of a
  placeholder fails, the function returns the empty string and this error, whatever
  placeholders follow in the template and whatever the path segments are.
\<close>

theorem render_fails_fast:
  "(parsePlaceholders input r pathSlice = Returns out (Some err) \<longrightarrow>
      out = [] \<and>
      (\<exists>pre p rest mid. FindAll input = pre @ p # rest
         \<and> placeholdersLoop r pre input = Continue mid
         \<and> processPlaceholder r p mid = Fail err)) \<and>
   (\<forall>pre p rest mid.
      FindAll input = pre @ p # rest \<and> placeholdersLoop r pre input = Continue mid \<and>
      processPlaceholder r p mid = Fail err \<longrightarrow>
      parsePlaceholders input r pathSlice = Returns [] (Some err))"
proof (intro conjI impI allI)
  assume a: "parsePlaceholders input r pathSlice = Returns out (Some err)"
  then show "out = []"
    by (auto simp: parsePlaceholders_def split: outcome.splits)
  from a have "placeholdersLoop r (FindAll input) input = Fail err"
    by (auto simp: parsePlaceholders_def split: outcome.splits)
  then show "\<exists>pre p rest mid. FindAll input = pre @ p # rest
         \<and> placeholdersLoop r pre input = Continue mid
         \<and> processPlaceholder r p mid = Fail err"
    by (rule placeholdersLoop_Fail)
next
  fix pre p rest mid
  assume "FindAll input = pre @ p # rest \<and> placeholdersLoop r pre input = Continue mid \<and>
      processPlaceholder r p mid = Fail err"
  then show "parsePlaceholders input r pathSlice = Returns [] (Some err)"
    using render_at_token_Fail by blast
qed

theorem render_fails_fast_witness:
  "(FindAll ''{host}/{label0}/{1}/{label9}'' = [''{host}''] @ ''{label0}'' # [''{1}'', ''{label9}''] \<and>
    placeholdersLoop exampleRequest [''{host}''] ''{host}/{label0}/{1}/{label9}''
      = Continue ''a.b.example.co.uk:8080/{label0}/{1}/{label9}'' \<and>
    processPlaceholder exampleRequest ''{label0}'' ''a.b.example.co.uk:8080/{label0}/{1}/{label9}''
      = Fail LabelZero) \<and>
   parsePlaceholders ''{host}/{label0}/{1}/{label9}'' exampleRequest [''seg'']
     = Returns [] (Some LabelZero) \<and>
   processPlaceholder exampleRequest ''{1}'' ''a.b.example.co.uk:8080/{label0}/{1}/{label9}''
     = Panic ReflectIndexOfNil \<and>
   (\<exists>pre p rest mid. FindAll ''{host}/{label0}/{1}/{label9}'' = pre @ p # rest
      \<and> placeholdersLoop exampleRequest pre ''{host}/{label0}/{1}/{label9}'' = Continue mid
      \<and> processPlaceholder exampleRequest p mid = Fail LabelZero)"
proof -
  have h: "FindAll ''{host}/{label0}/{1}/{label9}'' = [''{host}''] @ ''{label0}'' # [''{1}'', ''{label9}''] \<and>
    placeholdersLoop exampleRequest [''{host}''] ''{host}/{label0}/{1}/{label9}''
      = Continue ''a.b.example.co.uk:8080/{label0}/{1}/{label9}'' \<and>
    processPlaceholder exampleRequest ''{label0}'' ''a.b.example.co.uk:8080/{label0}/{1}/{label9}''
      = Fail LabelZero"
    by code_simp
  have p: "processPlaceholder exampleRequest ''{1}'' ''a.b.example.co.uk:8080/{label0}/{1}/{label9}''
     = Panic ReflectIndexOfNil"
    by code_simp
  note t = render_fails_fast [of "''{host}/{label0}/{1}/{label9}''" exampleRequest "[''seg'']" "[]" LabelZero]
  from t h have a: "parsePlaceholders ''{host}/{label0}/{1}/{label9}'' exampleRequest [''seg'']
     = Returns [] (Some LabelZero)"
    by blast
  with t have "\<exists>pre p rest mid. FindAll ''{host}/{label0}/{1}/{label9}'' = pre @ p # rest
      \<and> placeholdersLoop exampleRequest pre ''{host}/{label0}/{1}/{label9}'' = Continue mid
      \<and> processPlaceholder exampleRequest p mid = Fail LabelZero"
    by blast
  with h p a show ?thesis by blast
qed



text \<open>
  Claim C9. A template without placeholders and without the path tokens \<^verbatim>\<open>{$1}\<close>, ...,
  \<^verbatim>\<open>{$n}\<close> of the \<open>n\<close> path segments is returned unchanged and without error. So, when
  the result of a call is such a string, a second call with the same request and path
  segments returns it unchanged.
\<close>

theorem token_free_unchanged:
  "(FindAll t = [] \<and> noPathTokens t ps \<longrightarrow> parsePlaceholders t r ps = Returns t None) \<and>
   (parsePlaceholders input r ps = Returns out None \<and> FindAll out = [] \<and> noPathTokens out ps
      \<longrightarrow> parsePlaceholders out r ps = Returns out None)"
proof -
  have "parsePlaceholders s r ps = Returns s None" if "FindAll s = []" "noPathTokens s ps" for s
  proof -
    from that(2) have "\<forall>j<length ps. \<not> sublist (pathToken (Suc (0 + j))) s"
      by (simp add: noPathTokens_def list_all_iff Contains_def)
    then have "pathLoop 0 ps s = s" by (rule pathLoop_absent)
    with that(1) show ?thesis by (simp add: parsePlaceholders_def)
  qed
  then show ?thesis by blast
qed

theorem token_free_unchanged_witness:
  "(FindAll ''https://example.org/{}/a$1'' = [] \<and> noPathTokens ''https://example.org/{}/a$1'' [''p'', ''q'']) \<and>
   parsePlaceholders ''https://example.org/{}/a$1'' exampleRequest [''p'', ''q'']
     = Returns ''https://example.org/{}/a$1'' None \<and>
   (parsePlaceholders ''https://{hostonly}/{$1}'' exampleRequest [''p'', ''q'']
     = Returns ''https://a.b.example.co.uk/p'' None \<and>
    FindAll ''https://a.b.example.co.uk/p'' = [] \<and> noPathTokens ''https://a.b.example.co.uk/p'' [''p'', ''q'']) \<and>
   parsePlaceholders ''https://a.b.example.co.uk/p'' exampleRequest [''p'', ''q'']
     = Returns ''https://a.b.example.co.uk/p'' None"
proof -
  have h1: "FindAll ''https://example.org/{}/a$1'' = [] \<and> noPathTokens ''https://example.org/{}/a$1'' [''p'', ''q'']"
    by code_simp
  have h2: "parsePlaceholders ''https://{hostonly}/{$1}'' exampleRequest [''p'', ''q'']
     = Returns ''https://a.b.example.co.uk/p'' None \<and>
    FindAll ''https://a.b.example.co.uk/p'' = [] \<and> noPathTokens ''https://a.b.example.co.uk/p'' [''p'', ''q'']"
    by code_simp
  from h1 h2
    token_free_unchanged [of "''https://example.org/{}/a$1''" "[''p'', ''q'']" exampleRequest
      "''https://{hostonly}/{$1}''" "''https://a.b.example.co.uk/p''"]
  show ?thesis by blast
qed

text \<open>
  Claim C10. The replacements work on the current string, not on the positions of the
  tokens in the template. A value taken from the request that holds the text \<^verbatim>\<open>{$1}\<close> (a
  header, the host) is put into the string by the first loop, and the loop over the path
  slice then replaces that text, although the template holds no \<^verbatim>\<open>{$1}\<close>.
\<close>

theorem substituted_value_is_rescanned:
  "\<not> Contains ''{>Referer}'' (pathToken 1) \<and>
   parsePlaceholders ''{>Referer}''
      (exampleRequest\<lparr>Header := [(''Referer'', [''{$1}'']), (''Cookie'', [''session=xyz''])]\<rparr>) [''evil''] = Returns ''evil'' None \<and>
   \<not> Contains ''to/{host}'' (pathToken 1) \<and>
   parsePlaceholders ''to/{host}'' (exampleRequest\<lparr>Host := ''{$1}''\<rparr>) [''evil'']
      = Returns ''to/evil'' None"
  by code_simp

end
